theory Spec2Isabelle
  imports Main "HOL-Library.Word"
begin

unbundle bit_operations_syntax

section \<open>Values of the program\<close>

text \<open>
  The program is one TypeScript module. Its byte buffers are \<^verbatim>\<open>Uint8Array\<close>s, modelled
  as lists of 8-bit words; its strings are sequences of UTF-16 code units, modelled as
  lists of 16-bit words, so that \<^verbatim>\<open>length\<close> and \<^verbatim>\<open>substr\<close> count what the source
  counts. A JavaScript number that may also be \<^verbatim>\<open>undefined\<close> (a variable declared with
  no initialiser, an array read past the end) is a \<open>jsnum\<close>.
\<close>

type_synonym byte = "8 word"
type_synonym code_unit = "16 word"
type_synonym js_string = "code_unit list"

datatype jsnum = Undefined | Num int

datatype error = Error string | TypeError

definition utf16 :: "string \<Rightarrow> js_string" where
  "utf16 s = map of_char s"

text \<open>\<^verbatim>\<open>a[i]\<close> on a typed array: the element, or \<^verbatim>\<open>undefined\<close> out of range.\<close>

definition at :: "byte list \<Rightarrow> nat \<Rightarrow> jsnum" where
  "at a i = (if i < length a then Num (uint (a ! i)) else Undefined)"

text \<open>
  \<^verbatim>\<open>x & 0xFF\<close>: \<^verbatim>\<open>undefined\<close> converts to NaN and then to the 32-bit integer 0.
  Every number met here is a byte, so the conversion to 32 bits changes nothing.
\<close>

definition and255 :: "jsnum \<Rightarrow> int" where
  "and255 x = (case x of Undefined \<Rightarrow> 0 | Num n \<Rightarrow> n AND 255)"

text \<open>\<^verbatim>\<open>x == n\<close> for a number \<open>n\<close>: \<^verbatim>\<open>undefined == n\<close> is false.\<close>

definition looseEq :: "jsnum \<Rightarrow> int \<Rightarrow> bool" where
  "looseEq x n = (case x of Undefined \<Rightarrow> False | Num m \<Rightarrow> m = n)"

text \<open>\<^verbatim>\<open>a.subarray(i, j)\<close> for \<open>0 \<le> i \<le> j\<close>; both ends are clamped to the length.\<close>

definition subarray :: "byte list \<Rightarrow> nat \<Rightarrow> nat \<Rightarrow> byte list" where
  "subarray a i j = drop i (take j a)"

section \<open>Command catalogue: \<^verbatim>\<open>ConvertHexStringToByteArray\<close>\<close>

text \<open>
  \<^verbatim>\<open>parseInt(s, 16)\<close> as ECMAScript defines it: leading white space is trimmed, one
  sign is read, a prefix \<^verbatim>\<open>0x\<close> or \<^verbatim>\<open>0X\<close> is dropped, and the longest run of
  hexadecimal digits that follows is the value; with no digit there the result is NaN
  (\<open>None\<close>). The source only passes two code units, so the value is exact.
\<close>

definition isStrWhiteSpaceChar :: "code_unit \<Rightarrow> bool" where
  "isStrWhiteSpaceChar c \<longleftrightarrow>
     c = 0x9 \<or> c = 0xA \<or> c = 0xB \<or> c = 0xC \<or> c = 0xD \<or> c = 0x20 \<or> c = 0xA0 \<or>
     c = 0x1680 \<or> (0x2000 \<le> c \<and> c \<le> 0x200A) \<or> c = 0x2028 \<or> c = 0x2029 \<or>
     c = 0x202F \<or> c = 0x205F \<or> c = 0x3000 \<or> c = 0xFEFF"

definition radix16Digit :: "code_unit \<Rightarrow> nat option" where
  "radix16Digit c =
     (if 0x30 \<le> c \<and> c \<le> 0x39 then Some (unat c - 0x30)
      else if 0x41 \<le> c \<and> c \<le> 0x46 then Some (unat c - 0x41 + 10)
      else if 0x61 \<le> c \<and> c \<le> 0x66 then Some (unat c - 0x61 + 10)
      else None)"

definition isRadix16Digit :: "code_unit \<Rightarrow> bool" where
  "isRadix16Digit c \<longleftrightarrow> radix16Digit c \<noteq> None"

definition digitsValue :: "code_unit list \<Rightarrow> nat" where
  "digitsValue z = foldl (\<lambda>a c. 16 * a + the (radix16Digit c)) 0 z"

definition parseInt16 :: "js_string \<Rightarrow> int option" where
  "parseInt16 str =
     (let s = dropWhile isStrWhiteSpaceChar str;
          sign = (if s \<noteq> [] \<and> hd s = 0x2D then - 1 else 1 :: int);
          s1 = (if s \<noteq> [] \<and> (hd s = 0x2B \<or> hd s = 0x2D) then tl s else s);
          s2 = (if 2 \<le> length s1 \<and> s1 ! 0 = 0x30 \<and> (s1 ! 1 = 0x78 \<or> s1 ! 1 = 0x58)
                then drop 2 s1 else s1);
          z = takeWhile isRadix16Digit s2
      in if z = [] then None else Some (sign * int (digitsValue z)))"

text \<open>Storing a number into a \<^verbatim>\<open>Uint8Array\<close>: NaN becomes 0, an integer is taken modulo 256.\<close>

definition toUint8 :: "int option \<Rightarrow> byte" where
  "toUint8 v = (case v of None \<Rightarrow> 0 | Some n \<Rightarrow> word_of_int n)"

text \<open>\<^verbatim>\<open>s.substr(start, len)\<close> for a start inside the string.\<close>

definition substr :: "js_string \<Rightarrow> nat \<Rightarrow> nat \<Rightarrow> js_string" where
  "substr s start len = take len (drop start s)"

definition ConvertHexStringToByteArray :: "js_string \<Rightarrow> error + byte list" where
  "ConvertHexStringToByteArray hexString =
     (if length hexString = 0 then Inl (Error ''hex string cannot be empty'')
      else if length hexString mod 2 \<noteq> 0 then Inl (Error ''Must have an even number of hex digits'')
      else let numBytes = length hexString div 2
           in Inr (map (\<lambda>i. toUint8 (parseInt16 (substr hexString (i * 2) 2))) [0..<numBytes]))"

text \<open>
  The module's constants. Each is built when the module loads; \<open>projr\<close> reads the
  array out of a call that returns one (lemma \<open>commands_load\<close> below shows that all
  eight calls do).
\<close>

definition GET_FIRMWARE_VERSION_COMMAND :: "byte list" where
  "GET_FIRMWARE_VERSION_COMMAND = projr (ConvertHexStringToByteArray (utf16 ''2E''))"

definition GET_SHIMMER_VERSION_COMMAND :: "byte list" where
  "GET_SHIMMER_VERSION_COMMAND = projr (ConvertHexStringToByteArray (utf16 ''3F''))"

definition START_STREAMING_COMMAND :: "byte list" where
  "START_STREAMING_COMMAND = projr (ConvertHexStringToByteArray (utf16 ''07''))"

definition STOP_STREAMING_COMMAND :: "byte list" where
  "STOP_STREAMING_COMMAND = projr (ConvertHexStringToByteArray (utf16 ''20''))"

definition GET_EXG_REG1_COMMAND :: "byte list" where
  "GET_EXG_REG1_COMMAND = projr (ConvertHexStringToByteArray (utf16 ''6300000A''))"

definition GET_EXG_REG2_COMMAND :: "byte list" where
  "GET_EXG_REG2_COMMAND = projr (ConvertHexStringToByteArray (utf16 ''6301000A''))"

definition SET_EXG_REG1_COMMAND :: "byte list" where
  "SET_EXG_REG1_COMMAND = projr (ConvertHexStringToByteArray (utf16 ''6100000A''))"

definition SET_EXG_REG2_COMMAND :: "byte list" where
  "SET_EXG_REG2_COMMAND = projr (ConvertHexStringToByteArray (utf16 ''6100010A''))"

definition SHIMMER3_DEFAULT_TEST_REG1 :: "byte list" where
  "SHIMMER3_DEFAULT_TEST_REG1 = [0, 163, 16, 69, 69, 0, 0, 0, 2, 1]"

definition SHIMMER3_DEFAULT_TEST_REG2 :: "byte list" where
  "SHIMMER3_DEFAULT_TEST_REG2 = [0, 163, 16, 69, 69, 0, 0, 0, 2, 1]"

section \<open>Sample decoder: \<^verbatim>\<open>ParseData\<close>\<close>

text \<open>
  The loop over \<^verbatim>\<open>dataTypes\<close> with the read index \<open>j\<close>. An entry that is none of the
  three names pushes nothing and reads nothing. The function has no \<^verbatim>\<open>throw\<close> and no
  operation that can raise: a read past the end yields \<^verbatim>\<open>undefined\<close>.
\<close>

fun ParseData_loop :: "byte list \<Rightarrow> nat \<Rightarrow> string list \<Rightarrow> jsnum list" where
  "ParseData_loop data j [] = []"
| "ParseData_loop data j (t # ts) =
     (if t = ''u8'' then at data j # ParseData_loop data (j + 1) ts
      else if t = ''u24'' then
        Num (and255 (at data j) + push_bit 8 (and255 (at data (j + 1)))
             + push_bit 16 (and255 (at data (j + 2))))
        # ParseData_loop data (j + 3) ts
      else if t = ''i24r'' then
        Num (push_bit 16 (and255 (at data j)) + push_bit 8 (and255 (at data (j + 1)))
             + and255 (at data (j + 2)))
        # ParseData_loop data (j + 3) ts
      else ParseData_loop data j ts)"

definition ParseData :: "byte list \<Rightarrow> string list \<Rightarrow> jsnum list" where
  "ParseData data dataTypes = ParseData_loop data 0 dataTypes"

section \<open>Session state\<close>

text \<open>
  The module-level variables the protocol code reads and writes, the reader loop's
  local buffer \<^verbatim>\<open>temp\<close> (declared with no initialiser, so \<open>None\<close> until the first
  assignment), what has been written to the terminal, and what has been handed to the
  port's writer. The browser console is not modelled.
\<close>

datatype term_out =
    Writeln string                \<comment> \<open>\<^verbatim>\<open>term.writeln(text)\<close>\<close>
  | WritelnNum string jsnum       \<comment> \<open>\<^verbatim>\<open>term.writeln(text + number)\<close>\<close>
  | WritelnArray "jsnum list"     \<comment> \<open>\<^verbatim>\<open>term.writeln(String(array))\<close>\<close>
  | WriteNum jsnum string         \<comment> \<open>\<^verbatim>\<open>term.write(String(number) + text)\<close>\<close>

record session =
  startStreaming :: bool
  chipId :: jsnum
  firmwareIdentifier :: jsnum
  firmwareMajor :: jsnum
  firmwareMinor :: jsnum
  firmwareInternal :: jsnum
  hardwareVersion :: jsnum
  temp :: "byte list option"
  terminal :: "term_out list"
  written :: "byte list list"
  writerReleased :: bool

text \<open>The state when \<^verbatim>\<open>connectToPort\<close> has opened the port of a freshly loaded page.\<close>

definition initialSession :: session where
  "initialSession = \<lparr> startStreaming = False, chipId = Undefined,
     firmwareIdentifier = Undefined, firmwareMajor = Undefined, firmwareMinor = Undefined,
     firmwareInternal = Undefined, hardwareVersion = Undefined, temp = None,
     terminal = [], written = [], writerReleased = False \<rparr>"

definition termWrite :: "term_out list \<Rightarrow> session \<Rightarrow> session" where
  "termWrite out s = s\<lparr>terminal := terminal s @ out\<rparr>"

text \<open>
  \<^verbatim>\<open>writer.write(bytes)\<close>. It never throws: after \<^verbatim>\<open>releaseLock\<close> it returns a
  rejected promise that nobody awaits, and nothing reaches the port.
\<close>

definition writerWrite :: "byte list \<Rightarrow> session \<Rightarrow> session" where
  "writerWrite bytes s = (if writerReleased s then s else s\<lparr>written := written s @ [bytes]\<rparr>)"

section \<open>Connection sequencer: the timers of \<^verbatim>\<open>connectToPort\<close>\<close>

text \<open>\<^verbatim>\<open>for (i = 0; i < cmd.length; i++) writer.write(cmd.subarray(i, i + 1))\<close>\<close>

definition writeBytewise :: "byte list \<Rightarrow> session \<Rightarrow> session" where
  "writeBytewise cmd s = foldl (\<lambda>s i. writerWrite (subarray cmd i (i + 1)) s) s [0..<length cmd]"

text \<open>The guard \<^verbatim>\<open>firmwareIdentifier != 3 || hardwareVersion != 3\<close> of the four middle callbacks.\<close>

definition notShimmer3Exg :: "session \<Rightarrow> bool" where
  "notShimmer3Exg s \<longleftrightarrow> \<not> looseEq (firmwareIdentifier s) 3 \<or> \<not> looseEq (hardwareVersion s) 3"

text \<open>The eight anonymous callbacks, in the order the source registers them.\<close>

definition timeout1 :: "session \<Rightarrow> session" where
  "timeout1 s = writerWrite GET_FIRMWARE_VERSION_COMMAND s"

definition timeout2 :: "session \<Rightarrow> session" where
  "timeout2 s = writerWrite GET_SHIMMER_VERSION_COMMAND s"

definition timeout3 :: "session \<Rightarrow> session" where
  "timeout3 s = (if notShimmer3Exg s then s
     else writeBytewise SHIMMER3_DEFAULT_TEST_REG1 (writeBytewise SET_EXG_REG1_COMMAND s))"

definition timeout4 :: "session \<Rightarrow> session" where
  "timeout4 s = (if notShimmer3Exg s then s
     else writeBytewise SHIMMER3_DEFAULT_TEST_REG2 (writeBytewise SET_EXG_REG2_COMMAND s))"

definition timeout5 :: "session \<Rightarrow> session" where
  "timeout5 s = (if notShimmer3Exg s then s
     else writerWrite GET_EXG_REG1_COMMAND (s\<lparr>chipId := Num 1\<rparr>))"

definition timeout6 :: "session \<Rightarrow> session" where
  "timeout6 s = (if notShimmer3Exg s then s
     else termWrite [Writeln ''start streaming after 5 seconds'']
            (writerWrite GET_EXG_REG2_COMMAND (s\<lparr>chipId := Num 2\<rparr>)))"

definition timeout7 :: "session \<Rightarrow> session" where
  "timeout7 s = writerWrite START_STREAMING_COMMAND (s\<lparr>startStreaming := True\<rparr>)"

definition timeout8 :: "session \<Rightarrow> session" where
  "timeout8 s = s\<lparr>writerReleased := True\<rparr>"

text \<open>
  \<^verbatim>\<open>setTimeout(callback, waitTime += k)\<close>, repeated: the variable is increased first and
  its new value is the delay. The \<^verbatim>\<open>await\<close>s in front of the first three calls wait for
  a timer identifier, not for the timer, so all eight timers are set at the same instant.
\<close>

fun setTimeouts :: "nat \<Rightarrow> ((session \<Rightarrow> session) \<times> nat) list \<Rightarrow> (nat \<times> (session \<Rightarrow> session)) list" where
  "setTimeouts waitTime [] = []"
| "setTimeouts waitTime ((callback, k) # rest) =
     (let waitTime' = waitTime + k in (waitTime', callback) # setTimeouts waitTime' rest)"

definition connectTimers :: "(nat \<times> (session \<Rightarrow> session)) list" where
  "connectTimers = setTimeouts 200
     [(timeout1, 200), (timeout2, 200), (timeout3, 200), (timeout4, 200),
      (timeout5, 200), (timeout6, 200), (timeout7, 5000), (timeout8, 200)]"

section \<open>Reader loop: reassembly and decoding\<close>

text \<open>
  The body of the \<^verbatim>\<open>for (let i = 2; i < 8; i++)\<close> loop: six reads, each followed by
  \<^verbatim>\<open>i++\<close>, and five lines on the terminal.
\<close>

definition firmwareBody :: "byte list \<Rightarrow> nat \<Rightarrow> session \<Rightarrow> session" where
  "firmwareBody t i s =
     (let ident = Num (and255 (at t i) + push_bit 8 (and255 (at t (i + 1))));
          major = Num (and255 (at t (i + 2)) + push_bit 8 (and255 (at t (i + 3))));
          minor = at t (i + 4);
          internal = at t (i + 5)
      in termWrite
           [Writeln ''FW VERSION RESPONSE Received'',
            WritelnNum ''Firmware identifier: '' ident,
            WritelnNum ''Firmware major: '' major,
            WritelnNum ''Firmware minor: '' minor,
            WritelnNum ''Firmware internal: '' internal]
           (s\<lparr>firmwareIdentifier := ident, firmwareMajor := major,
              firmwareMinor := minor, firmwareInternal := internal\<rparr>))"

function firmwareLoop :: "byte list \<Rightarrow> nat \<Rightarrow> session \<Rightarrow> session" where
  "firmwareLoop t i s = (if i < 8 then firmwareLoop t (i + 6 + 1) (firmwareBody t i s) else s)"
  by pat_completeness auto
termination
  by (relation "measure (\<lambda>(t, i, s). 8 - i)") auto

text \<open>The same loop, counting how often its body runs.\<close>

function firmwareLoopRuns :: "nat \<Rightarrow> nat" where
  "firmwareLoopRuns i = (if i < 8 then 1 + firmwareLoopRuns (i + 6 + 1) else 0)"
  by pat_completeness auto
termination
  by (relation "measure (\<lambda>i. 8 - i)") auto

definition exgConfig :: "byte list \<Rightarrow> session \<Rightarrow> session" where
  "exgConfig t s =
     termWrite
       ((if looseEq (chipId s) 1 then [Writeln ''EXG CHIP 1 CONFIGURATION'']
         else [Writeln ''EXG CHIP 2 CONFIGURATION''])
        @ map (\<lambda>i. WriteNum (at t i) '' '') [3..<length t]
        @ [Writeln []])
       s"

text \<open>Lines 370 to 375: the acknowledgement message.\<close>

definition ackNotice :: "byte list \<Rightarrow> session \<Rightarrow> session" where
  "ackNotice val s =
     (if looseEq (at val 0) 255 \<and> startStreaming s
      then termWrite ([Writeln ''Ack Received'']
             @ (if startStreaming s then [Writeln ''Start Streaming''] else [])) s
      else s)"

text \<open>
  Lines 376 to 384: a chunk that starts with 255 or 0 replaces the buffer, any other
  chunk is appended to it. Appending reads \<^verbatim>\<open>temp.length\<close>, which throws a
  \<^verbatim>\<open>TypeError\<close> while \<^verbatim>\<open>temp\<close> is still \<^verbatim>\<open>undefined\<close>.
\<close>

definition accumulate :: "byte list \<Rightarrow> session \<Rightarrow> error + session" where
  "accumulate val s =
     (if looseEq (at val 0) 255 \<or> looseEq (at val 0) 0 then Inr (s\<lparr>temp := Some val\<rparr>)
      else case temp s of
             None \<Rightarrow> Inl TypeError
           | Some t \<Rightarrow> Inr (s\<lparr>temp := Some (t @ val)\<rparr>))"

text \<open>Lines 385 to 419: one \<^verbatim>\<open>if\<close>, then an \<^verbatim>\<open>if\<close>/\<^verbatim>\<open>else if\<close> chain, on the buffer.\<close>

definition dataTypes :: "string list" where
  "dataTypes = [''u24'', ''u8'', ''i24r'', ''i24r'', ''u8'', ''i24r'', ''i24r'']"

definition decodeSample :: "byte list \<Rightarrow> session \<Rightarrow> session" where
  "decodeSample t s =
     (if looseEq (at t 0) 0 \<and> length t = 18 \<and> startStreaming s
      then termWrite [WritelnArray (ParseData (subarray t 1 (length t)) dataTypes)] s
      else s)"

definition decodeReply :: "byte list \<Rightarrow> session \<Rightarrow> session" where
  "decodeReply t s =
     (if looseEq (at t 1) 47 \<and> length t = 8 then firmwareLoop t 2 s
      else if looseEq (at t 1) 37 \<and> length t = 3 then
        termWrite [WritelnNum ''Hardware version: '' (at t 2)] (s\<lparr>hardwareVersion := at t 2\<rparr>)
      else if looseEq (at t 1) 98 \<and> length t = 13 then exgConfig t s
      else s)"

text \<open>
  The function passed to \<^verbatim>\<open>new Promise\<close> for one chunk, after its call of
  \<^verbatim>\<open>resolve()\<close>. \<open>Inl\<close> is an exception leaving the function; the only one arises in
  \<open>accumulate\<close>, where the chunk's first byte is not 255, so no variable has been
  assigned and nothing has been written to the terminal before it.
\<close>

definition executor :: "session \<Rightarrow> byte list \<Rightarrow> error + session" where
  "executor s val =
     (case accumulate val (ackNotice val s) of
        Inl e \<Rightarrow> Inl e
      | Inr s' \<Rightarrow> (case temp s' of
                    None \<Rightarrow> Inl TypeError
                  | Some t \<Rightarrow> Inr (decodeReply t (decodeSample t s'))))"

text \<open>
  \<^verbatim>\<open>await new Promise((resolve) => { console.log(value); resolve(); ... })\<close>.
  The function calls \<^verbatim>\<open>resolve()\<close> before anything else, so the promise is already
  fulfilled when a later statement throws: the promise constructor catches the
  exception and its rejection of a settled promise has no effect. The \<^verbatim>\<open>await\<close>
  therefore always completes normally (\<open>Inr\<close>), and the \<^verbatim>\<open>catch\<close> block of the reader
  loop, which would print \<^verbatim>\<open><ERROR: ...>\<close>, is not entered from here.
\<close>

definition awaitChunk :: "session \<Rightarrow> byte list \<Rightarrow> error + session" where
  "awaitChunk s val = (case executor s val of Inl e \<Rightarrow> Inr s | Inr s' \<Rightarrow> Inr s')"

text \<open>The \<^verbatim>\<open>for (;;)\<close> loop over the chunks that \<^verbatim>\<open>reader.read()\<close> delivers.\<close>

fun readLoop :: "session \<Rightarrow> byte list list \<Rightarrow> error + session" where
  "readLoop s [] = Inr s"
| "readLoop s (val # vals) =
     (case awaitChunk s val of Inl e \<Rightarrow> Inl e | Inr s' \<Rightarrow> readLoop s' vals)"

section \<open>Notions used to state the properties\<close>

text \<open>
  The number of bytes the loop of \<^verbatim>\<open>ParseData\<close> reads for a descriptor: the number of
  times it evaluates \<^verbatim>\<open>j++\<close>.
\<close>

fun consumed :: "string list \<Rightarrow> nat" where
  "consumed [] = 0"
| "consumed (t # ts) =
     (if t = ''u8'' then 1 else if t = ''u24'' then 3 else if t = ''i24r'' then 3 else 0) + consumed ts"

definition knownTypes :: "string set" where
  "knownTypes = {''u8'', ''u24'', ''i24r''}"

text \<open>The byte at an index of the payload, and the byte 0 past its end.\<close>

definition byteOrZero :: "byte list \<Rightarrow> nat \<Rightarrow> byte" where
  "byteOrZero data k = (if k < length data then data ! k else 0)"

text \<open>The numbers printed by \<^verbatim>\<open>term.write\<close>: the register dump of an ExgConfig frame.\<close>

definition registerDump :: "term_out list \<Rightarrow> jsnum list" where
  "registerDump out = concat (map (\<lambda>x. case x of WriteNum n _ \<Rightarrow> [n] | _ \<Rightarrow> []) out)"

text \<open>
  The frame-kind table of the specification, in its words: the discriminator and the
  required length of each kind that is decoded.
\<close>

datatype frame_kind = StreamingSample | FirmwareVersion | HardwareVersion | ExgConfig

definition specTableRow :: "frame_kind \<Rightarrow> byte list \<Rightarrow> bool" where
  "specTableRow k buffer =
     (case k of
        StreamingSample \<Rightarrow> at buffer 0 = Num 0x00 \<and> length buffer = 18
      | FirmwareVersion \<Rightarrow> at buffer 1 = Num 0x2F \<and> length buffer = 8
      | HardwareVersion \<Rightarrow> at buffer 1 = Num 0x25 \<and> length buffer = 3
      | ExgConfig \<Rightarrow> at buffer 1 = Num 0x62 \<and> length buffer = 13)"

text \<open>
  What a call has decoded, read off the terminal: each decoding branch of the source
  starts with a line of its own (the sample line, the heading of the firmware block, the
  hardware line, the heading of the register dump).
\<close>

definition decodedKind :: "term_out \<Rightarrow> frame_kind list" where
  "decodedKind x =
     (case x of
        WritelnArray _ \<Rightarrow> [StreamingSample]
      | Writeln text \<Rightarrow>
          (if text = ''FW VERSION RESPONSE Received'' then [FirmwareVersion]
           else if text = ''EXG CHIP 1 CONFIGURATION'' \<or> text = ''EXG CHIP 2 CONFIGURATION''
           then [ExgConfig] else [])
      | WritelnNum text _ \<Rightarrow> (if text = ''Hardware version: '' then [HardwareVersion] else [])
      | WriteNum _ _ \<Rightarrow> [])"

definition decodedKinds :: "session \<Rightarrow> session \<Rightarrow> frame_kind list" where
  "decodedKinds s s' = concat (map decodedKind (drop (length (terminal s)) (terminal s')))"

section \<open>Reading bytes\<close>

lemma at_in_range: "i < length a \<Longrightarrow> at a i = Num (uint (a ! i))"
  by (simp add: at_def)

lemma at_past_end: "length a \<le> i \<Longrightarrow> at a i = Undefined"
  by (simp add: at_def)

lemma looseEq_Num: "looseEq x n \<longleftrightarrow> x = Num n"
  by (cases x) (auto simp: looseEq_def)

lemma and255_byte: "and255 (Num (uint (b :: byte))) = uint b"
proof -
  have "take_bit 8 (uint b) = uint b"
    by (simp add: take_bit_int_eq_self_iff uint_lt2p [where 'a = 8, simplified])
  moreover have "mask 8 = (255::int)"
    by (simp add: mask_eq_exp_minus_1)
  ultimately have "uint b AND 255 = uint b"
    by (simp add: take_bit_eq_mask)
  then show ?thesis by (simp add: and255_def)
qed

lemma and255_at: "i < length a \<Longrightarrow> and255 (at a i) = uint (a ! i)"
  by (simp add: at_in_range and255_byte)

text \<open>Bytes shifted to different positions share no bit, so their sum is their bitwise or.\<close>

lemma le16_or: "uint (a::byte) + push_bit 8 (uint (b::byte)) = uint a OR push_bit 8 (uint b)"
  by (rule disjunctive_add_eq_or) (auto simp: bit_eq_iff bit_simps dest: bit_imp_le_length)

lemma u24_or:
  "uint (a::byte) + push_bit 8 (uint (b::byte)) + push_bit 16 (uint (c::byte))
   = uint a OR push_bit 8 (uint b) OR push_bit 16 (uint c)"
proof -
  have "(uint a OR push_bit 8 (uint b)) + push_bit 16 (uint c)
      = (uint a OR push_bit 8 (uint b)) OR push_bit 16 (uint c)"
    by (rule disjunctive_add_eq_or) (auto simp: bit_eq_iff bit_simps dest: bit_imp_le_length)
  then show ?thesis by (simp add: le16_or or.assoc)
qed

lemma i24r_or:
  "push_bit 16 (uint (a::byte)) + push_bit 8 (uint (b::byte)) + uint (c::byte)
   = push_bit 16 (uint a) OR push_bit 8 (uint b) OR uint c"
proof -
  have hi: "push_bit 16 (uint a) + push_bit 8 (uint b) = push_bit 16 (uint a) OR push_bit 8 (uint b)"
    by (rule disjunctive_add_eq_or) (auto simp: bit_eq_iff bit_simps dest: bit_imp_le_length)
  have lo: "(push_bit 16 (uint a) OR push_bit 8 (uint b)) + uint c
      = (push_bit 16 (uint a) OR push_bit 8 (uint b)) OR uint c"
    by (rule disjunctive_add_eq_or) (auto simp: bit_eq_iff bit_simps dest: bit_imp_le_length)
  show ?thesis by (simp only: hi lo or.assoc)
qed

section \<open>The hexadecimal encoder\<close>

lemma hex_digit_not_special:
  assumes "isRadix16Digit c"
  shows "\<not> isStrWhiteSpaceChar c" "c \<noteq> 0x2D" "c \<noteq> 0x2B" "c \<noteq> 0x78" "c \<noteq> 0x58"
  using assms unfolding isRadix16Digit_def radix16Digit_def isStrWhiteSpaceChar_def
  by (auto simp: word_le_nat_alt split: if_splits)

lemma parseInt16_pair:
  assumes "isRadix16Digit a" "isRadix16Digit b"
  shows "parseInt16 [a, b] = Some (int (16 * the (radix16Digit a) + the (radix16Digit b)))"
  using assms hex_digit_not_special [OF assms(1)] hex_digit_not_special [OF assms(2)]
  by (simp add: parseInt16_def digitsValue_def Let_def)

lemma substr_pair:
  assumes "i * 2 + 1 < length s"
  shows "substr s (i * 2) 2 = [s ! (i * 2), s ! (i * 2 + 1)]"
proof -
  have "take 2 (drop (i * 2) s) = [drop (i * 2) s ! 0, drop (i * 2) s ! 1]"
    using assms by (intro nth_equalityI) (auto simp: less_Suc_eq numeral_2_eq_2)
  then show ?thesis using assms by (simp add: substr_def)
qed

lemma Convert_Inr:
  assumes "s \<noteq> []" "even (length s)"
  shows "ConvertHexStringToByteArray s =
    Inr (map (\<lambda>i. toUint8 (parseInt16 (substr s (i * 2) 2))) [0..<length s div 2])"
  using assms by (simp add: ConvertHexStringToByteArray_def Let_def)

lemma Convert_fails_iff:
  "(\<exists>e. ConvertHexStringToByteArray s = Inl e) \<longleftrightarrow> s = [] \<or> odd (length s)"
  by (auto simp: ConvertHexStringToByteArray_def Let_def)

lemmas hex_eval = ConvertHexStringToByteArray_def utf16_def substr_def parseInt16_def
  isStrWhiteSpaceChar_def isRadix16Digit_def radix16Digit_def digitsValue_def toUint8_def

text \<open>All eight constants of the module are built without an exception.\<close>

lemma commands_load:
  "ConvertHexStringToByteArray (utf16 ''2E'') = Inr [0x2E]"
  "ConvertHexStringToByteArray (utf16 ''3F'') = Inr [0x3F]"
  "ConvertHexStringToByteArray (utf16 ''07'') = Inr [0x07]"
  "ConvertHexStringToByteArray (utf16 ''20'') = Inr [0x20]"
  "ConvertHexStringToByteArray (utf16 ''6300000A'') = Inr [0x63, 0x00, 0x00, 0x0A]"
  "ConvertHexStringToByteArray (utf16 ''6301000A'') = Inr [0x63, 0x01, 0x00, 0x0A]"
  "ConvertHexStringToByteArray (utf16 ''6100000A'') = Inr [0x61, 0x00, 0x00, 0x0A]"
  "ConvertHexStringToByteArray (utf16 ''6100010A'') = Inr [0x61, 0x00, 0x01, 0x0A]"
  by (simp_all add: hex_eval upt_rec [of 0] upt_rec [of 1] upt_rec [of 2] upt_rec [of 3])

text \<open>
  What \<^verbatim>\<open>ConvertHexStringToByteArray\<close> does: it throws exactly when its input is empty
  or has an odd number of code units. Every other input, whatever its characters, yields
  one byte per pair of code units, and a pair of two hexadecimal digits yields the byte
  they denote. In particular \<^verbatim>\<open>"2E"\<close> gives the single byte 0x2E, and \<^verbatim>\<open>""\<close> and
  \<^verbatim>\<open>"2"\<close> throw.
\<close>

theorem ConvertHexStringToByteArray_result:
  "((\<exists>e. ConvertHexStringToByteArray s = Inl e) \<longleftrightarrow> s = [] \<or> odd (length s)) \<and>
   (s \<noteq> [] \<and> even (length s) \<longrightarrow>
      (\<exists>bytes. ConvertHexStringToByteArray s = Inr bytes \<and> length bytes = length s div 2 \<and>
         (\<forall>i < length bytes. isRadix16Digit (s ! (i * 2)) \<and> isRadix16Digit (s ! (i * 2 + 1)) \<longrightarrow>
            bytes ! i = word_of_nat (16 * the (radix16Digit (s ! (i * 2)))
                                     + the (radix16Digit (s ! (i * 2 + 1))))))) \<and>
   ConvertHexStringToByteArray (utf16 ''2E'') = Inr [0x2E] \<and>
   ConvertHexStringToByteArray (utf16 []) = Inl (Error ''hex string cannot be empty'') \<and>
   ConvertHexStringToByteArray (utf16 ''2'') = Inl (Error ''Must have an even number of hex digits'')"
proof (intro conjI impI)
  show "(\<exists>e. ConvertHexStringToByteArray s = Inl e) \<longleftrightarrow> s = [] \<or> odd (length s)"
    by (rule Convert_fails_iff)
next
  assume a: "s \<noteq> [] \<and> even (length s)"
  let ?bytes = "map (\<lambda>i. toUint8 (parseInt16 (substr s (i * 2) 2))) [0..<length s div 2]"
  have r: "ConvertHexStringToByteArray s = Inr ?bytes"
    using a by (simp add: Convert_Inr)
  have bytes_ok: "?bytes ! i = word_of_nat (16 * the (radix16Digit (s ! (i * 2)))
                                     + the (radix16Digit (s ! (i * 2 + 1))))"
    if "i < length ?bytes" "isRadix16Digit (s ! (i * 2))" "isRadix16Digit (s ! (i * 2 + 1))" for i
  proof -
    from that(1) have i: "i < length s div 2" by simp
    with a have "i * 2 + 1 < length s" by (auto elim!: evenE)
    then have "substr s (i * 2) 2 = [s ! (i * 2), s ! (i * 2 + 1)]"
      by (rule substr_pair)
    then have "parseInt16 (substr s (i * 2) 2) =
        Some (int (16 * the (radix16Digit (s ! (i * 2))) + the (radix16Digit (s ! (i * 2 + 1)))))"
      using that(2,3) by (simp only: parseInt16_pair)
    then show ?thesis using i by (simp add: toUint8_def)
  qed
  show "\<exists>bytes. ConvertHexStringToByteArray s = Inr bytes \<and> length bytes = length s div 2 \<and>
         (\<forall>i < length bytes. isRadix16Digit (s ! (i * 2)) \<and> isRadix16Digit (s ! (i * 2 + 1)) \<longrightarrow>
            bytes ! i = word_of_nat (16 * the (radix16Digit (s ! (i * 2)))
                                     + the (radix16Digit (s ! (i * 2 + 1)))))"
    using r bytes_ok by (intro exI [of _ ?bytes]) simp
next
  show "ConvertHexStringToByteArray (utf16 ''2E'') = Inr [0x2E]"
    by (simp add: hex_eval)
next
  show "ConvertHexStringToByteArray (utf16 []) = Inl (Error ''hex string cannot be empty'')"
    by (simp add: ConvertHexStringToByteArray_def utf16_def)
next
  show "ConvertHexStringToByteArray (utf16 ''2'') = Inl (Error ''Must have an even number of hex digits'')"
    by (simp add: ConvertHexStringToByteArray_def utf16_def)
qed

text \<open>The theorem at the input \<^verbatim>\<open>"3f"\<close>: not empty, of even length, two digits.\<close>

theorem ConvertHexStringToByteArray_result_witness:
  "utf16 ''3f'' \<noteq> [] \<and> even (length (utf16 ''3f'')) \<and>
   ConvertHexStringToByteArray (utf16 ''3f'') = Inr [0x3F]"
proof -
  let ?s = "utf16 ''3f''"
  have s: "?s = [0x33, 0x66]" by (simp add: utf16_def)
  have h: "?s \<noteq> [] \<and> even (length ?s)" by (simp add: utf16_def)
  from ConvertHexStringToByteArray_result [of ?s] h
  obtain bytes where b: "ConvertHexStringToByteArray ?s = Inr bytes" "length bytes = length ?s div 2"
    and v: "\<forall>i < length bytes. isRadix16Digit (?s ! (i * 2)) \<and> isRadix16Digit (?s ! (i * 2 + 1)) \<longrightarrow>
            bytes ! i = word_of_nat (16 * the (radix16Digit (?s ! (i * 2)))
                                     + the (radix16Digit (?s ! (i * 2 + 1))))"
    by blast
  have len: "length bytes = 1" using b(2) by (simp add: utf16_def)
  have d: "isRadix16Digit (0x33 :: code_unit)" "isRadix16Digit (0x66 :: code_unit)"
    "radix16Digit (0x33 :: code_unit) = Some 3" "radix16Digit (0x66 :: code_unit) = Some 15"
    by (simp_all add: isRadix16Digit_def radix16Digit_def)
  have "bytes ! 0 = 0x3F"
    using v [rule_format, of 0] len d by (simp add: s)
  with len have "bytes = [0x3F]"
    by (cases bytes) auto
  with b(1) h show ?thesis by simp
qed

text \<open>
  Claim C3: the encoder fails on an input that contains a character that is no
  hexadecimal digit. The code does not: it checks the length only, although its second
  message asks for hex digits and its caller has a branch for input that is not valid.
  \<^verbatim>\<open>"zz"\<close> contains no hexadecimal digit, and the call returns the byte 0
  (\<^verbatim>\<open>parseInt\<close> gives NaN, which the typed array stores as 0); a write of \<^verbatim>\<open>"zz"\<close>
  sends the byte 0x00 to the device.
\<close>

theorem ConvertHexStringToByteArray_accepts_nonhex:
  "\<not> isRadix16Digit (of_char CHR ''z'') \<and> ConvertHexStringToByteArray (utf16 ''zz'') = Inr [0]"
  by (simp add: isRadix16Digit_def radix16Digit_def ConvertHexStringToByteArray_def utf16_def
      substr_def parseInt16_def isStrWhiteSpaceChar_def toUint8_def)

section \<open>The sample decoder\<close>

text \<open>
  Claim C4. \<^verbatim>\<open>ParseData\<close> walks the payload from left to right. With its bytes inside
  the payload, a \<^verbatim>\<open>u8\<close> entry takes one byte as it is, a \<^verbatim>\<open>u24\<close> entry takes three
  bytes as \<open>b0 | (b1<<8) | (b2<<16)\<close>, and an \<^verbatim>\<open>i24r\<close> entry takes three bytes as
  \<open>(b0<<16) | (b1<<8) | b2\<close>, a value that is never negative (three bytes 0xFF give
  16777215). The 17-byte payload of the specification decodes to 1, 5, 1, 2, 6, 3, 4.
\<close>

theorem ParseData_fields:
  "(j < length data \<longrightarrow>
      ParseData_loop data j (''u8'' # ts) = Num (uint (data ! j)) # ParseData_loop data (j + 1) ts) \<and>
   (j + 2 < length data \<longrightarrow>
      ParseData_loop data j (''u24'' # ts) =
        Num (uint (data ! j) OR push_bit 8 (uint (data ! (j + 1))) OR push_bit 16 (uint (data ! (j + 2))))
        # ParseData_loop data (j + 3) ts) \<and>
   (j + 2 < length data \<longrightarrow>
      ParseData_loop data j (''i24r'' # ts) =
        Num (push_bit 16 (uint (data ! j)) OR push_bit 8 (uint (data ! (j + 1))) OR uint (data ! (j + 2)))
        # ParseData_loop data (j + 3) ts) \<and>
   ParseData data ts = ParseData_loop data 0 ts \<and>
   ParseData [0xFF, 0xFF, 0xFF] [''i24r''] = [Num 16777215] \<and>
   ParseData [0x01, 0x00, 0x00, 0x05, 0x00, 0x00, 0x01, 0x00, 0x00, 0x02, 0x06,
              0x00, 0x00, 0x03, 0x00, 0x00, 0x04]
             [''u24'', ''u8'', ''i24r'', ''i24r'', ''u8'', ''i24r'', ''i24r'']
     = [Num 1, Num 5, Num 1, Num 2, Num 6, Num 3, Num 4]"
proof (intro conjI impI)
  assume "j < length data"
  then show "ParseData_loop data j (''u8'' # ts) = Num (uint (data ! j)) # ParseData_loop data (j + 1) ts"
    by (simp add: at_in_range)
next
  assume "j + 2 < length data"
  then show "ParseData_loop data j (''u24'' # ts) =
        Num (uint (data ! j) OR push_bit 8 (uint (data ! (j + 1))) OR push_bit 16 (uint (data ! (j + 2))))
        # ParseData_loop data (j + 3) ts"
    by (simp add: and255_at u24_or)
next
  assume "j + 2 < length data"
  then show "ParseData_loop data j (''i24r'' # ts) =
        Num (push_bit 16 (uint (data ! j)) OR push_bit 8 (uint (data ! (j + 1))) OR uint (data ! (j + 2)))
        # ParseData_loop data (j + 3) ts"
    by (simp add: and255_at i24r_or)
next
  show "ParseData data ts = ParseData_loop data 0 ts"
    by (simp add: ParseData_def)
next
  show "ParseData [0xFF, 0xFF, 0xFF] [''i24r''] = [Num 16777215]"
    by (simp add: ParseData_def at_def and255_def)
next
  show "ParseData [0x01, 0x00, 0x00, 0x05, 0x00, 0x00, 0x01, 0x00, 0x00, 0x02, 0x06,
              0x00, 0x00, 0x03, 0x00, 0x00, 0x04]
             [''u24'', ''u8'', ''i24r'', ''i24r'', ''u8'', ''i24r'', ''i24r'']
     = [Num 1, Num 5, Num 1, Num 2, Num 6, Num 3, Num 4]"
    by (simp add: ParseData_def at_def and255_def)
qed

text \<open>The theorem at the three bytes 34 12 AB, read at offsets 0 and 2.\<close>

theorem ParseData_fields_witness:
  "(0::nat) + 2 < length [0x34, 0x12, 0xAB :: byte] \<and>
   ParseData_loop [0x34, 0x12, 0xAB] 0 [''u24''] = [Num 0xAB1234] \<and>
   ParseData_loop [0x34, 0x12, 0xAB] 0 [''i24r''] = [Num 0x3412AB] \<and>
   ParseData_loop [0x34, 0x12, 0xAB] 2 [''u8''] = [Num 0xAB]"
  using ParseData_fields [of 0 "[0x34, 0x12, 0xAB]" "[]"] ParseData_fields [of 2 "[0x34, 0x12, 0xAB]" "[]"]
  by (simp add: at_def and255_def)

lemma length_ParseData_loop:
  "set ts \<subseteq> knownTypes \<Longrightarrow> length (ParseData_loop data j ts) = length ts"
  by (induction ts arbitrary: j) (auto simp: knownTypes_def)

lemma and255_byteOrZero: "and255 (at data k) = uint (byteOrZero data k)"
  by (simp add: byteOrZero_def at_def and255_byte) (simp add: and255_def)

lemma ParseData_loop_nth:
  "set ts \<subseteq> knownTypes \<Longrightarrow> i < length ts \<Longrightarrow>
   ParseData_loop data j ts ! i =
     (let k = j + consumed (take i ts) in
      if ts ! i = ''u8'' then (if k < length data then Num (uint (data ! k)) else Undefined)
      else if ts ! i = ''u24'' then
        Num (uint (byteOrZero data k) OR push_bit 8 (uint (byteOrZero data (k + 1)))
             OR push_bit 16 (uint (byteOrZero data (k + 2))))
      else
        Num (push_bit 16 (uint (byteOrZero data k)) OR push_bit 8 (uint (byteOrZero data (k + 1)))
             OR uint (byteOrZero data (k + 2))))"
proof (induction ts arbitrary: i j)
  case Nil
  then show ?case by simp
next
  case (Cons t ts)
  from Cons.prems(1) have t: "t = ''u8'' \<or> t = ''u24'' \<or> t = ''i24r''"
    by (simp add: knownTypes_def)
  show ?case
  proof (cases i)
    case 0
    from t show ?thesis
    proof (elim disjE)
      assume "t = ''u8''"
      with 0 show ?thesis by (simp add: at_def)
    next
      assume "t = ''u24''"
      with 0 show ?thesis by (simp add: Let_def and255_byteOrZero u24_or)
    next
      assume "t = ''i24r''"
      with 0 show ?thesis by (simp add: Let_def and255_byteOrZero i24r_or)
    qed
  next
    case (Suc n)
    with Cons.prems have n: "set ts \<subseteq> knownTypes" "n < length ts"
      by simp_all
    from t show ?thesis
    proof (elim disjE)
      assume "t = ''u8''"
      with Cons.IH [OF n, of "j + 1"] Suc show ?thesis
        by (simp add: Let_def add.assoc)
    next
      assume "t = ''u24''"
      with Cons.IH [OF n, of "j + 3"] Suc show ?thesis
        by (simp add: Let_def add.assoc)
    next
      assume "t = ''i24r''"
      with Cons.IH [OF n, of "j + 3"] Suc show ?thesis
        by (simp add: Let_def add.assoc)
    qed
  qed
qed

text \<open>
  Claim C5, as the code has it. \<^verbatim>\<open>ParseData\<close> has no failure: for a payload shorter than
  the bytes its descriptor (of \<^verbatim>\<open>u8\<close>, \<^verbatim>\<open>u24\<close> and \<^verbatim>\<open>i24r\<close> entries) reads, it still
  returns one value per entry. The entry at position \<open>i\<close> starts at the offset that the
  entries before it have read. A \<^verbatim>\<open>u8\<close> entry is the byte there, or \<^verbatim>\<open>undefined\<close> when
  the offset is past the end of the payload; a \<^verbatim>\<open>u24\<close> or \<^verbatim>\<open>i24r\<close> entry is the number
  assembled from its three bytes, where each byte past the end counts as 0.
\<close>

theorem ParseData_truncated:
  assumes "set ts \<subseteq> knownTypes" and "length data < consumed ts"
  shows "length (ParseData data ts) = length ts \<and>
         (\<forall>i < length ts.
            ParseData data ts ! i =
              (let k = consumed (take i ts) in
               if ts ! i = ''u8'' then (if k < length data then Num (uint (data ! k)) else Undefined)
               else if ts ! i = ''u24'' then
                 Num (uint (byteOrZero data k) OR push_bit 8 (uint (byteOrZero data (k + 1)))
                      OR push_bit 16 (uint (byteOrZero data (k + 2))))
               else
                 Num (push_bit 16 (uint (byteOrZero data k)) OR push_bit 8 (uint (byteOrZero data (k + 1)))
                      OR uint (byteOrZero data (k + 2)))))"
  using assms(1) ParseData_loop_nth [of ts _ data 0]
  by (simp add: ParseData_def length_ParseData_loop)

text \<open>The theorem at the two bytes 34 12 with the descriptor \<^verbatim>\<open>u24\<close>, \<^verbatim>\<open>u8\<close>, which reads four.\<close>

theorem ParseData_truncated_witness:
  "set [''u24'', ''u8''] \<subseteq> knownTypes \<and>
   length [0x34, 0x12 :: byte] < consumed [''u24'', ''u8''] \<and>
   ParseData [0x34, 0x12] [''u24'', ''u8''] ! 0 = Num 0x1234 \<and>
   ParseData [0x34, 0x12] [''u24'', ''u8''] ! 1 = Undefined \<and>
   length (ParseData [0x34, 0x12] [''u24'', ''u8'']) = 2"
proof -
  have k: "set [''u24'', ''u8''] \<subseteq> knownTypes" by (simp add: knownTypes_def)
  have l: "length [0x34, 0x12 :: byte] < consumed [''u24'', ''u8'']" by simp
  note t = ParseData_truncated [OF k l]
  from t have "ParseData [0x34, 0x12] [''u24'', ''u8''] ! 0 = Num 0x1234"
    by (simp add: byteOrZero_def)
  moreover from t have "ParseData [0x34, 0x12] [''u24'', ''u8''] ! 1 = Undefined"
    by simp
  moreover from t have "length (ParseData [0x34, 0x12] [''u24'', ''u8'']) = 2"
    by simp
  ultimately show ?thesis using k l by simp
qed

text \<open>
  Claim C5 as stated fails: the empty payload is shorter than the one byte that the
  descriptor \<^verbatim>\<open>u8\<close> reads and than the three bytes that \<^verbatim>\<open>u24\<close> reads, and
  \<^verbatim>\<open>ParseData\<close> returns the one-element arrays holding \<^verbatim>\<open>undefined\<close> and 0.
\<close>

theorem ParseData_truncated_counterexample:
  "length ([] :: byte list) < consumed [''u8''] \<and> ParseData [] [''u8''] = [Undefined] \<and>
   length ([] :: byte list) < consumed [''u24''] \<and> ParseData [] [''u24''] = [Num 0]"
  by (simp add: ParseData_def at_def and255_def)

section \<open>The connection sequencer\<close>

lemma command_bytes:
  "GET_FIRMWARE_VERSION_COMMAND = [0x2E]"
  "GET_SHIMMER_VERSION_COMMAND = [0x3F]"
  "START_STREAMING_COMMAND = [0x07]"
  "STOP_STREAMING_COMMAND = [0x20]"
  "GET_EXG_REG1_COMMAND = [0x63, 0x00, 0x00, 0x0A]"
  "GET_EXG_REG2_COMMAND = [0x63, 0x01, 0x00, 0x0A]"
  "SET_EXG_REG1_COMMAND = [0x61, 0x00, 0x00, 0x0A]"
  "SET_EXG_REG2_COMMAND = [0x61, 0x00, 0x01, 0x0A]"
  by (simp_all add: GET_FIRMWARE_VERSION_COMMAND_def GET_SHIMMER_VERSION_COMMAND_def
      START_STREAMING_COMMAND_def STOP_STREAMING_COMMAND_def GET_EXG_REG1_COMMAND_def
      GET_EXG_REG2_COMMAND_def SET_EXG_REG1_COMMAND_def SET_EXG_REG2_COMMAND_def commands_load)

text \<open>
  Claim C1, as the code has it. The eight timers are set with the delays 400, 600, 800,
  1000, 1200, 1400, 6400 and 6600 ms: the variable starts at 200 and is increased before
  each use, so every step fires 200 ms later than the offsets 200, 400, ..., 6400.
  The first timer writes GetFirmwareVersion (2E), the second GetHardwareVersion (3F),
  the next four are the register steps, the seventh sets the streaming flag and writes
  StartStreaming (07), and the eighth releases the writer.
\<close>

theorem connectTimers_schedule:
  "connectTimers =
     [(400, timeout1), (600, timeout2), (800, timeout3), (1000, timeout4),
      (1200, timeout5), (1400, timeout6), (6400, timeout7), (6600, timeout8)] \<and>
   timeout1 s = writerWrite [0x2E] s \<and>
   timeout2 s = writerWrite [0x3F] s \<and>
   timeout7 s = writerWrite [0x07] (s\<lparr>startStreaming := True\<rparr>) \<and>
   timeout8 s = s\<lparr>writerReleased := True\<rparr>"
  by (simp add: connectTimers_def Let_def timeout1_def timeout2_def timeout7_def timeout8_def
      command_bytes)

text \<open>The theorem at the initial session: what the seventh timer of the list does there.\<close>

theorem connectTimers_schedule_witness:
  "connectTimers ! 6 = (6400, timeout7) \<and>
   timeout7 initialSession = initialSession\<lparr>startStreaming := True, written := [[0x07]]\<rparr>"
proof -
  note schedule = connectTimers_schedule [of initialSession]
  from schedule have timers: "connectTimers =
     [(400, timeout1), (600, timeout2), (800, timeout3), (1000, timeout4),
      (1200, timeout5), (1400, timeout6), (6400, timeout7), (6600, timeout8)]"
    by (rule conjunct1)
  from schedule have seventh:
    "timeout7 initialSession = writerWrite [0x07] (initialSession\<lparr>startStreaming := True\<rparr>)"
    by blast
  show ?thesis
    unfolding timers seventh by (simp add: writerWrite_def initialSession_def)
qed

text \<open>
  Claim C1 as stated fails: the delays are not 200, 400, ..., 6400; the timer that writes
  GetFirmwareVersion has the delay 400.
\<close>

theorem connectTimers_offsets_counterexample:
  "map fst connectTimers \<noteq> [200, 400, 600, 800, 1000, 1200, 6200, 6400] \<and>
   connectTimers ! 0 = (400, timeout1) \<and>
   timeout1 initialSession = initialSession\<lparr>written := [[0x2E]]\<rparr>"
  by (simp add: connectTimers_def Let_def timeout1_def command_bytes writerWrite_def initialSession_def)

lemma writeBytewise_foldl:
  "writeBytewise cmd s = foldl (\<lambda>s b. writerWrite [b] s) s cmd"
proof -
  have "foldl (\<lambda>s i. writerWrite (subarray cmd i (i + 1)) s) s [0..<n] = foldl (\<lambda>s b. writerWrite [b] s) s (take n cmd)"
    if "n \<le> length cmd" for n
    using that
  proof (induction n)
    case 0
    then show ?case by simp
  next
    case (Suc n)
    then have "subarray cmd n (n + 1) = [cmd ! n]"
      by (simp add: subarray_def take_Suc_conv_app_nth)
    with Suc show ?case
      by (simp add: take_Suc_conv_app_nth)
  qed
  from this [of "length cmd"] show ?thesis by (simp add: writeBytewise_def)
qed

lemma notShimmer3Exg_iff:
  "notShimmer3Exg s \<longleftrightarrow> \<not> (firmwareIdentifier s = Num 3 \<and> hardwareVersion s = Num 3)"
  by (simp add: notShimmer3Exg_def looseEq_Num)

text \<open>
  Claim C2. When their timers fire, the four middle callbacks act exactly if
  \<^verbatim>\<open>firmwareIdentifier\<close> and \<^verbatim>\<open>hardwareVersion\<close> are both the number 3: they write
  SetExgReg1 and SetExgReg2 one byte per write, each followed by its default test
  payload one byte per write, then set \<^verbatim>\<open>chipId\<close> to 1 and write GetExgReg1, then set
  \<^verbatim>\<open>chipId\<close> to 2 and write GetExgReg2. With any other pair (also while a variable is
  still \<^verbatim>\<open>undefined\<close>) they return the session unchanged; no callback can throw. The
  callbacks of steps 1, 2, 7 and 8 do not read the identity.
\<close>

theorem exg_steps_gated:
  "timeout3 s = (if firmwareIdentifier s = Num 3 \<and> hardwareVersion s = Num 3
                 then foldl (\<lambda>s b. writerWrite [b] s) s
                        ([0x61, 0x00, 0x00, 0x0A] @ [0x00, 0xA3, 0x10, 0x45, 0x45, 0x00, 0x00, 0x00, 0x02, 0x01])
                 else s) \<and>
   timeout4 s = (if firmwareIdentifier s = Num 3 \<and> hardwareVersion s = Num 3
                 then foldl (\<lambda>s b. writerWrite [b] s) s
                        ([0x61, 0x00, 0x01, 0x0A] @ [0x00, 0xA3, 0x10, 0x45, 0x45, 0x00, 0x00, 0x00, 0x02, 0x01])
                 else s) \<and>
   timeout5 s = (if firmwareIdentifier s = Num 3 \<and> hardwareVersion s = Num 3
                 then writerWrite [0x63, 0x00, 0x00, 0x0A] (s\<lparr>chipId := Num 1\<rparr>)
                 else s) \<and>
   timeout6 s = (if firmwareIdentifier s = Num 3 \<and> hardwareVersion s = Num 3
                 then termWrite [Writeln ''start streaming after 5 seconds'']
                        (writerWrite [0x63, 0x01, 0x00, 0x0A] (s\<lparr>chipId := Num 2\<rparr>))
                 else s) \<and>
   timeout1 s = writerWrite [0x2E] s \<and>
   timeout2 s = writerWrite [0x3F] s \<and>
   timeout7 s = writerWrite [0x07] (s\<lparr>startStreaming := True\<rparr>) \<and>
   timeout8 s = s\<lparr>writerReleased := True\<rparr>"
proof (intro conjI)
  show "timeout3 s = (if firmwareIdentifier s = Num 3 \<and> hardwareVersion s = Num 3
                 then foldl (\<lambda>s b. writerWrite [b] s) s
                        ([0x61, 0x00, 0x00, 0x0A] @ [0x00, 0xA3, 0x10, 0x45, 0x45, 0x00, 0x00, 0x00, 0x02, 0x01])
                 else s)"
    unfolding timeout3_def notShimmer3Exg_iff writeBytewise_foldl command_bytes SHIMMER3_DEFAULT_TEST_REG1_def
    by simp
next
  show "timeout4 s = (if firmwareIdentifier s = Num 3 \<and> hardwareVersion s = Num 3
                 then foldl (\<lambda>s b. writerWrite [b] s) s
                        ([0x61, 0x00, 0x01, 0x0A] @ [0x00, 0xA3, 0x10, 0x45, 0x45, 0x00, 0x00, 0x00, 0x02, 0x01])
                 else s)"
    unfolding timeout4_def notShimmer3Exg_iff writeBytewise_foldl command_bytes SHIMMER3_DEFAULT_TEST_REG2_def
    by simp
next
  show "timeout5 s = (if firmwareIdentifier s = Num 3 \<and> hardwareVersion s = Num 3
                 then writerWrite [0x63, 0x00, 0x00, 0x0A] (s\<lparr>chipId := Num 1\<rparr>)
                 else s)"
    by (simp add: timeout5_def notShimmer3Exg_iff command_bytes)
next
  show "timeout6 s = (if firmwareIdentifier s = Num 3 \<and> hardwareVersion s = Num 3
                 then termWrite [Writeln ''start streaming after 5 seconds'']
                        (writerWrite [0x63, 0x01, 0x00, 0x0A] (s\<lparr>chipId := Num 2\<rparr>))
                 else s)"
    by (simp add: timeout6_def notShimmer3Exg_iff command_bytes)
qed (simp_all add: timeout1_def timeout2_def timeout7_def timeout8_def command_bytes)

text \<open>The theorem at the identities (3, 3), (1, 3) and (3, undefined).\<close>

theorem exg_steps_gated_witness:
  "written (timeout3 (initialSession\<lparr>firmwareIdentifier := Num 3, hardwareVersion := Num 3\<rparr>)) =
     [[0x61], [0x00], [0x00], [0x0A], [0x00], [0xA3], [0x10], [0x45], [0x45], [0x00], [0x00], [0x00], [0x02], [0x01]] \<and>
   timeout3 (initialSession\<lparr>firmwareIdentifier := Num 1, hardwareVersion := Num 3\<rparr>) =
     initialSession\<lparr>firmwareIdentifier := Num 1, hardwareVersion := Num 3\<rparr> \<and>
   timeout5 (initialSession\<lparr>firmwareIdentifier := Num 3\<rparr>) = initialSession\<lparr>firmwareIdentifier := Num 3\<rparr> \<and>
   written (timeout1 (initialSession\<lparr>firmwareIdentifier := Num 1, hardwareVersion := Num 3\<rparr>)) = [[0x2E]]"
  using exg_steps_gated [of "initialSession\<lparr>firmwareIdentifier := Num 3, hardwareVersion := Num 3\<rparr>"]
    exg_steps_gated [of "initialSession\<lparr>firmwareIdentifier := Num 1, hardwareVersion := Num 3\<rparr>"]
    exg_steps_gated [of "initialSession\<lparr>firmwareIdentifier := Num 3\<rparr>"]
  by (simp add: initialSession_def writerWrite_def)

section \<open>The frame decoder\<close>

lemma firmwareLoop_once: "firmwareLoop t 2 s = firmwareBody t 2 s"
  by (simp add: firmwareLoop.simps)

lemma looseEq_at: "i < length t \<Longrightarrow> looseEq (at t i) n \<longleftrightarrow> uint (t ! i) = n"
  by (simp add: at_def looseEq_def)

text \<open>
  Claim C8. Decoding an 8-byte buffer \<open>b\<close> whose second byte is 0x2F sets
  identifier = \<open>b[2] | (b[3]<<8)\<close>, major = \<open>b[4] | (b[5]<<8)\<close>, minor = \<open>b[6]\<close> and
  internal = \<open>b[7]\<close>, and prints one block of five lines: the body of the loop runs
  once, because its six \<^verbatim>\<open>i++\<close> and the one of the loop header take \<open>i\<close> from 2 to 9.
\<close>

theorem firmwareVersion_fields:
  assumes "length b = 8" and "b ! 1 = 47"
  shows "decodeReply b s =
           s\<lparr>firmwareIdentifier := Num (uint (b ! 2) OR push_bit 8 (uint (b ! 3))),
             firmwareMajor := Num (uint (b ! 4) OR push_bit 8 (uint (b ! 5))),
             firmwareMinor := Num (uint (b ! 6)),
             firmwareInternal := Num (uint (b ! 7)),
             terminal := terminal s @
               [Writeln ''FW VERSION RESPONSE Received'',
                WritelnNum ''Firmware identifier: '' (Num (uint (b ! 2) OR push_bit 8 (uint (b ! 3)))),
                WritelnNum ''Firmware major: '' (Num (uint (b ! 4) OR push_bit 8 (uint (b ! 5)))),
                WritelnNum ''Firmware minor: '' (Num (uint (b ! 6))),
                WritelnNum ''Firmware internal: '' (Num (uint (b ! 7)))]\<rparr>
         \<and> firmwareLoopRuns 2 = 1"
proof -
  have sel: "looseEq (at b 1) 47" using assms by (simp add: looseEq_at)
  have "decodeReply b s = firmwareBody b 2 s"
    using sel assms(1) by (simp add: decodeReply_def firmwareLoop_once)
  moreover have "firmwareLoopRuns 2 = 1"
    by (simp add: firmwareLoopRuns.simps)
  ultimately show ?thesis
    using assms(1) by (simp add: firmwareBody_def Let_def termWrite_def and255_byte at_in_range le16_or)
qed

text \<open>The theorem at the frame FF 2F 03 01 05 00 10 02.\<close>

theorem firmwareVersion_fields_witness:
  "length [255, 47, 3, 1, 5, 0, 16, 2 :: byte] = 8 \<and> [255, 47, 3, 1, 5, 0, 16, 2 :: byte] ! 1 = 47 \<and>
   decodeReply [255, 47, 3, 1, 5, 0, 16, 2] initialSession =
     initialSession\<lparr>firmwareIdentifier := Num 259, firmwareMajor := Num 5,
        firmwareMinor := Num 16, firmwareInternal := Num 2,
        terminal := [Writeln ''FW VERSION RESPONSE Received'',
                WritelnNum ''Firmware identifier: '' (Num 259),
                WritelnNum ''Firmware major: '' (Num 5),
                WritelnNum ''Firmware minor: '' (Num 16),
                WritelnNum ''Firmware internal: '' (Num 2)]\<rparr>"
  using firmwareVersion_fields [of "[255, 47, 3, 1, 5, 0, 16, 2]" initialSession]
  by (simp add: initialSession_def)

lemma exg_dump_map: "map (\<lambda>i. f (at t i)) [k..<length t] = map (\<lambda>b. f (Num (uint b))) (drop k t)"
  by (rule nth_equalityI) (auto simp: at_def)

text \<open>
  Claim C9, as the code has it. Decoding a 13-byte buffer whose second byte is 0x62
  prints the heading of chip 1 when \<^verbatim>\<open>chipId\<close> is 1 and the heading of chip 2 otherwise,
  and then the bytes from offset 3 to the end of the buffer, which are 10 bytes.
\<close>

theorem exgConfig_dump:
  assumes "length t = 13" and "t ! 1 = 98"
  shows "decodeReply t s =
           termWrite ([Writeln (if chipId s = Num 1 then ''EXG CHIP 1 CONFIGURATION''
                                else ''EXG CHIP 2 CONFIGURATION'')]
                      @ map (\<lambda>b. WriteNum (Num (uint b)) '' '') (drop 3 t)
                      @ [Writeln []]) s
         \<and> length (drop 3 t) = 10"
proof -
  have sel: "looseEq (at t 1) 98" "\<not> looseEq (at t 1) 47" "\<not> looseEq (at t 1) 37"
    using assms by (simp_all add: looseEq_at)
  then have "decodeReply t s = exgConfig t s"
    using assms(1) by (simp add: decodeReply_def)
  moreover have "exgConfig t s =
           termWrite ([Writeln (if chipId s = Num 1 then ''EXG CHIP 1 CONFIGURATION''
                                else ''EXG CHIP 2 CONFIGURATION'')]
                      @ map (\<lambda>b. WriteNum (Num (uint b)) '' '') (drop 3 t)
                      @ [Writeln []]) s"
    unfolding exgConfig_def exg_dump_map [of "\<lambda>n. WriteNum n '' ''" t 3]
    by (simp add: looseEq_Num)
  ultimately show ?thesis
    using assms(1) by simp
qed

text \<open>The theorem at a 13-byte frame, with \<^verbatim>\<open>chipId\<close> 1.\<close>

theorem exgConfig_dump_witness:
  "length [255, 98, 10, 1, 2, 3, 4, 5, 6, 7, 8, 9, 10 :: byte] = 13 \<and>
   [255, 98, 10, 1, 2, 3, 4, 5, 6, 7, 8, 9, 10 :: byte] ! 1 = 98 \<and>
   terminal (decodeReply [255, 98, 10, 1, 2, 3, 4, 5, 6, 7, 8, 9, 10] (initialSession\<lparr>chipId := Num 1\<rparr>)) =
     [Writeln ''EXG CHIP 1 CONFIGURATION'', WriteNum (Num 1) '' '', WriteNum (Num 2) '' '',
      WriteNum (Num 3) '' '', WriteNum (Num 4) '' '', WriteNum (Num 5) '' '', WriteNum (Num 6) '' '',
      WriteNum (Num 7) '' '', WriteNum (Num 8) '' '', WriteNum (Num 9) '' '', WriteNum (Num 10) '' '',
      Writeln []]"
  using exgConfig_dump [of "[255, 98, 10, 1, 2, 3, 4, 5, 6, 7, 8, 9, 10]" "initialSession\<lparr>chipId := Num 1\<rparr>"]
  by (simp add: initialSession_def termWrite_def)

text \<open>
  Claim C9 as stated fails: for the frame FF 62 0A 01 02 ... 0A the dump holds the ten
  numbers 1 to 10, not nine.
\<close>

theorem exgConfig_nine_bytes_counterexample:
  "registerDump (terminal (decodeReply [255, 98, 10, 1, 2, 3, 4, 5, 6, 7, 8, 9, 10] initialSession))
     = [Num 1, Num 2, Num 3, Num 4, Num 5, Num 6, Num 7, Num 8, Num 9, Num 10]"
  by (simp add: decodeReply_def exgConfig_def registerDump_def initialSession_def termWrite_def
      looseEq_def at_def upt_rec [of 3] upt_rec[of 4] upt_rec[of 5] upt_rec[of 6] upt_rec[of 7] upt_rec[of 8] upt_rec[of 9] upt_rec[of 10] upt_rec[of 11] upt_rec[of 12] upt_rec[of 13])

lemma decodedKinds_output:
  "terminal s' = terminal s @ out \<Longrightarrow> decodedKinds s s' = concat (map decodedKind out)"
  by (simp add: decodedKinds_def)

lemma ackNotice_output:
  "\<exists>out. terminal (ackNotice val s) = terminal s @ out \<and> concat (map decodedKind out) = []"
  by (simp add: ackNotice_def termWrite_def decodedKind_def)


lemma accumulate_Inr:
  assumes "accumulate val s = Inr s2"
  shows "terminal s2 = terminal s" "startStreaming s2 = startStreaming s" "\<exists>t. temp s2 = Some t"
  using assms by (auto simp: accumulate_def split: if_splits option.splits)



lemma terminal_firmwareBody:
  "\<exists>out. terminal (firmwareBody t i s) = terminal s @ out \<and> concat (map decodedKind out) = [FirmwareVersion]"
  by (simp add: firmwareBody_def Let_def termWrite_def decodedKind_def)

lemma temp_firmwareBody: "temp (firmwareBody t i s) = temp s"
  by (simp add: firmwareBody_def Let_def termWrite_def)










section \<open>The reassembler\<close>

lemma at_hd: "val \<noteq> [] \<Longrightarrow> at val 0 = Num (uint (hd val))"
  by (cases val) (simp_all add: at_def)

lemma looseEq_hd: "val \<noteq> [] \<Longrightarrow> looseEq (at val 0) (uint (b :: byte)) \<longleftrightarrow> hd val = b"
  by (simp add: at_hd looseEq_def word_uint_eq_iff)

lemma not_marker:
  assumes "val \<noteq> []" "hd val \<noteq> 0" "hd val \<noteq> 255"
  shows "\<not> looseEq (at val 0) 255" "\<not> looseEq (at val 0) 0"
  using assms looseEq_hd [of val 255] looseEq_hd [of val 0] by simp_all

lemma is_marker:
  assumes "val \<noteq> []" "hd val = 0 \<or> hd val = 255"
  shows "looseEq (at val 0) 255 \<or> looseEq (at val 0) 0"
  using assms looseEq_hd [of val 255] looseEq_hd [of val 0] by auto

lemma decodeSample_not18: "length t \<noteq> 18 \<Longrightarrow> decodeSample t s = s"
  by (simp add: decodeSample_def)

lemma decodeReply_firmware_prefix:
  assumes "length t < 8" and "1 < length t \<longrightarrow> t ! 1 = 47"
  shows "decodeReply t s = s"
proof (cases "1 < length t")
  case True
  with assms(2) have "at t 1 = Num 47" by (simp add: at_def)
  with assms(1) show ?thesis by (simp add: decodeReply_def looseEq_def)
next
  case False
  then have "at t 1 = Undefined" by (simp add: at_def)
  then show ?thesis by (simp add: decodeReply_def looseEq_def)
qed

lemma decodeReply_firmware:
  assumes "length t = 8" and "t ! 1 = 47"
  shows "decodeReply t s = firmwareBody t 2 s"
  using assms by (simp add: decodeReply_def looseEq_at firmwareLoop_once)

lemma executor_append:
  assumes "temp s = Some t" "val \<noteq> []" "hd val \<noteq> 0" "hd val \<noteq> 255"
  shows "executor s val = Inr (decodeReply (t @ val) (decodeSample (t @ val) (s\<lparr>temp := Some (t @ val)\<rparr>)))"
proof -
  note nm = not_marker [OF assms(2,3,4)]
  have "ackNotice val s = s" using nm by (simp add: ackNotice_def)
  moreover have "accumulate val s = Inr (s\<lparr>temp := Some (t @ val)\<rparr>)"
    using nm assms(1) by (simp add: accumulate_def)
  ultimately show ?thesis by (simp add: executor_def)
qed

lemma executor_marker:
  assumes "val \<noteq> []" "hd val = 0 \<or> hd val = 255"
  shows "executor s val = Inr (decodeReply val (decodeSample val ((ackNotice val s)\<lparr>temp := Some val\<rparr>)))"
proof -
  have "accumulate val (ackNotice val s) = Inr ((ackNotice val s)\<lparr>temp := Some val\<rparr>)"
    using is_marker [OF assms] by (auto simp: accumulate_def)
  then show ?thesis by (simp add: executor_def)
qed

lemma readLoop_step: "executor s val = Inr s' \<Longrightarrow> readLoop s (val # vals) = readLoop s' vals"
  by (simp add: awaitChunk_def)

lemma concat_nonempty: "rest \<noteq> [] \<Longrightarrow> \<forall>c \<in> set rest. c \<noteq> [] \<Longrightarrow> 0 < length (concat rest)"
  by (cases rest) auto

lemma readLoop_rest:
  assumes "temp s = Some t" and "t \<noteq> []" and "length (t @ concat rest) = 8"
    and "(t @ concat rest) ! 1 = 47"
    and "\<forall>c \<in> set rest. c \<noteq> [] \<and> hd c \<noteq> 0 \<and> hd c \<noteq> 255" and "rest \<noteq> []"
  shows "readLoop s rest =
    Inr (firmwareBody (t @ concat rest) 2 (s\<lparr>temp := Some (t @ concat rest)\<rparr>))"
  using assms
proof (induction rest arbitrary: s t)
  case Nil
  then show ?case by simp
next
  case (Cons c rest)
  from Cons.prems(5) have c: "c \<noteq> []" "hd c \<noteq> 0" "hd c \<noteq> 255" by simp_all
  let ?s2 = "s\<lparr>temp := Some (t @ c)\<rparr>"
  have ex: "executor s c = Inr (decodeReply (t @ c) (decodeSample (t @ c) ?s2))"
    using Cons.prems(1) c by (rule executor_append)
  have le: "length (t @ c) \<le> 8" using Cons.prems(3) by simp
  then have smp: "decodeSample (t @ c) ?s2 = ?s2" by (simp add: decodeSample_not18)
  show ?case
  proof (cases "rest = []")
    case True
    with Cons.prems(3,4) have "length (t @ c) = 8" "(t @ c) ! 1 = 47" by simp_all
    then have "decodeReply (t @ c) ?s2 = firmwareBody (t @ c) 2 ?s2"
      by (rule decodeReply_firmware)
    with ex smp have "executor s c = Inr (firmwareBody (t @ c) 2 ?s2)" by simp
    from readLoop_step [OF this] True show ?thesis by simp
  next
    case False
    with Cons.prems(5) have "0 < length (concat rest)" by (intro concat_nonempty) simp_all
    moreover have "length (t @ c) + length (concat rest) = 8" using Cons.prems(3) by simp
    ultimately have lt: "length (t @ c) < 8" by arith
    have "((t @ c) @ concat rest) ! 1 = 47"
      using Cons.prems(4) by simp
    then have "1 < length (t @ c) \<longrightarrow> (t @ c) ! 1 = 47"
      by (metis nth_append)
    with lt have "decodeReply (t @ c) ?s2 = ?s2" by (rule decodeReply_firmware_prefix)
    with ex smp have "executor s c = Inr ?s2" by simp
    then have step: "readLoop s (c # rest) = readLoop ?s2 rest" by (rule readLoop_step)
    have "readLoop ?s2 rest =
      Inr (firmwareBody ((t @ c) @ concat rest) 2 (?s2\<lparr>temp := Some ((t @ c) @ concat rest)\<rparr>))"
      using Cons.prems False by (intro Cons.IH) simp_all
    with step show ?thesis by simp
  qed
qed

lemma ackNotice_cong: "at v 0 = at w 0 \<Longrightarrow> ackNotice v s = ackNotice w s"
  by (simp add: ackNotice_def)

lemma readLoop_unsplit:
  assumes "length frame = 8" and "frame ! 1 = 47" and "frame ! 0 = 0 \<or> frame ! 0 = 255"
  shows "readLoop s [frame] = Inr (firmwareBody frame 2 ((ackNotice frame s)\<lparr>temp := Some frame\<rparr>))"
proof -
  from assms(1) have ne: "frame \<noteq> []" by auto
  with assms(3) have "hd frame = 0 \<or> hd frame = 255" by (simp add: hd_conv_nth)
  with ne have "executor s frame =
      Inr (decodeReply frame (decodeSample frame ((ackNotice frame s)\<lparr>temp := Some frame\<rparr>)))"
    by (rule executor_marker)
  moreover have "decodeSample frame ((ackNotice frame s)\<lparr>temp := Some frame\<rparr>) = (ackNotice frame s)\<lparr>temp := Some frame\<rparr>"
    using assms(1) by (simp add: decodeSample_not18)
  moreover have "decodeReply frame ((ackNotice frame s)\<lparr>temp := Some frame\<rparr>)
      = firmwareBody frame 2 ((ackNotice frame s)\<lparr>temp := Some frame\<rparr>)"
    using assms(1,2) by (rule decodeReply_firmware)
  ultimately have "executor s frame = Inr (firmwareBody frame 2 ((ackNotice frame s)\<lparr>temp := Some frame\<rparr>))"
    by simp
  from readLoop_step [OF this] show ?thesis by simp
qed

lemma readLoop_chunks:
  assumes "length frame = 8" and "frame ! 1 = 47" and "frame ! 0 = 0 \<or> frame ! 0 = 255"
    and "concat chunks = frame" and "\<forall>c \<in> set chunks. c \<noteq> []"
    and "\<forall>c \<in> set (tl chunks). hd c \<noteq> 0 \<and> hd c \<noteq> 255"
  shows "readLoop s chunks = Inr (firmwareBody frame 2 ((ackNotice frame s)\<lparr>temp := Some frame\<rparr>))"
proof (cases chunks)
  case Nil
  with assms(1,4) show ?thesis by simp
next
  case (Cons c rest)
  with assms(5) have c: "c \<noteq> []" by simp
  from Cons assms(4) have fr: "frame = c @ concat rest" by simp
  with c have hd: "hd c = frame ! 0" by (simp add: hd_conv_nth nth_append)
  show ?thesis
  proof (cases "rest = []")
    case True
    with fr Cons have "chunks = [frame]" by simp
    with assms(1,2,3) show ?thesis by (simp only: readLoop_unsplit)
  next
    case False
    let ?s1 = "(ackNotice c s)\<lparr>temp := Some c\<rparr>"
    from hd assms(3) have "hd c = 0 \<or> hd c = 255" by simp
    with c have ex: "executor s c = Inr (decodeReply c (decodeSample c ?s1))"
      by (rule executor_marker)
    from False assms(5) Cons have "0 < length (concat rest)" by (intro concat_nonempty) simp_all
    moreover have "length c + length (concat rest) = 8" using fr assms(1) by simp
    ultimately have lt: "length c < 8" by arith
    then have "decodeSample c ?s1 = ?s1" by (simp add: decodeSample_not18)
    moreover have "1 < length c \<longrightarrow> c ! 1 = 47"
      using assms(2) fr by (auto simp: nth_append)
    with lt have "decodeReply c ?s1 = ?s1" by (rule decodeReply_firmware_prefix)
    ultimately have "executor s c = Inr ?s1"
      using ex by simp
    then have step: "readLoop s (c # rest) = readLoop ?s1 rest"
      by (rule readLoop_step)
    have "readLoop ?s1 rest = Inr (firmwareBody (c @ concat rest) 2 (?s1\<lparr>temp := Some (c @ concat rest)\<rparr>))"
      using c assms(1,2,5,6) fr False Cons by (intro readLoop_rest) simp_all
    moreover have "at c 0 = at frame 0"
      using c fr by (simp add: at_def nth_append)
    then have "ackNotice c s = ackNotice frame s" by (rule ackNotice_cong)
    ultimately show ?thesis using step Cons fr by simp
  qed
qed

text \<open>
  Claim C6, as the code has it. Let an 8-byte frame start with 0x00 or 0xFF and have
  0x2F as its second byte, and let it be cut into non-empty consecutive chunks of which
  none after the first starts with 0x00 or 0xFF. Fed in order, from any session, the
  chunks give exactly the session that the unsplit frame gives: the buffer is the
  frame, and one FirmwareVersion frame has been decoded.
\<close>

theorem firmware_frame_reassembled:
  assumes "length frame = 8" and "frame ! 1 = 0x2F" and "frame ! 0 = 0x00 \<or> frame ! 0 = 0xFF"
    and "concat chunks = frame" and "\<forall>c \<in> set chunks. c \<noteq> []"
    and "\<forall>c \<in> set (tl chunks). hd c \<noteq> 0x00 \<and> hd c \<noteq> 0xFF"
  shows "\<exists>s'. readLoop s chunks = Inr s' \<and> readLoop s [frame] = Inr s' \<and>
              temp s' = Some frame \<and> decodedKinds s s' = [FirmwareVersion]"
proof -
  let ?s1 = "(ackNotice frame s)\<lparr>temp := Some frame\<rparr>"
  let ?s' = "firmwareBody frame 2 ?s1"
  have a: "readLoop s chunks = Inr ?s'"
    using assms by (simp only: readLoop_chunks)
  have b: "readLoop s [frame] = Inr ?s'"
    using assms(1,2,3) by (simp only: readLoop_unsplit)
  have t: "temp ?s' = Some frame"
    by (simp add: temp_firmwareBody)
  obtain out1 where o1: "terminal (ackNotice frame s) = terminal s @ out1" "concat (map decodedKind out1) = []"
    using ackNotice_output by blast
  obtain out2 where o2: "terminal ?s' = terminal ?s1 @ out2" "concat (map decodedKind out2) = [FirmwareVersion]"
    using terminal_firmwareBody by blast
  have "terminal ?s' = terminal s @ (out1 @ out2)"
    using o1(1) o2(1) by simp
  then have "decodedKinds s ?s' = concat (map decodedKind (out1 @ out2))"
    by (rule decodedKinds_output)
  with o1(2) o2(2) have k: "decodedKinds s ?s' = [FirmwareVersion]" by simp
  from a b t k show ?thesis by blast
qed

text \<open>The theorem at the frame FF 2F 03 00 00 00 10 00, cut after 2 and after 6 bytes.\<close>

theorem firmware_frame_reassembled_witness:
  "readLoop initialSession [[255, 47], [3, 0, 0, 0], [16, 0]] = readLoop initialSession [[255, 47, 3, 0, 0, 0, 16, 0]] \<and>
   firmwareIdentifier (projr (readLoop initialSession [[255, 47], [3, 0, 0, 0], [16, 0]])) = Num 3"
proof -
  have "\<exists>s'. readLoop initialSession [[255, 47], [3, 0, 0, 0], [16, 0]] = Inr s' \<and>
             readLoop initialSession [[255, 47, 3, 0, 0, 0, 16, 0]] = Inr s' \<and>
             temp s' = Some [255, 47, 3, 0, 0, 0, 16, 0] \<and> decodedKinds initialSession s' = [FirmwareVersion]"
    by (rule firmware_frame_reassembled) simp_all
  moreover have "firmwareIdentifier (projr (readLoop initialSession [[255, 47, 3, 0, 0, 0, 16, 0]])) = Num 3"
    by (simp add: awaitChunk_def executor_def ackNotice_def accumulate_def decodeSample_def decodeReply_def
        firmwareBody_def Let_def termWrite_def initialSession_def looseEq_def at_def and255_def)
  ultimately show ?thesis by auto
qed

text \<open>
  Claim C6 as stated fails: cut after 3 bytes, the same frame has a second chunk that
  starts with 0x00. That chunk replaces the buffer, and no frame is decoded, while the
  unsplit frame sets the identifier to 3. And an 8-byte buffer with the discriminator
  0x2F that does not start with 0x00 or 0xFF is not decoded even when it arrives
  unsplit as the first chunk of a connection.
\<close>

theorem firmware_frame_split_counterexample:
  "concat [[255, 47, 3], [0, 0, 0, 16, 0]] = [255, 47, 3, 0, 0, 0, 16, 0 :: byte] \<and>
   readLoop initialSession [[255, 47, 3], [0, 0, 0, 16, 0]]
     = Inr (initialSession\<lparr>temp := Some [0, 0, 0, 16, 0]\<rparr>) \<and>
   decodedKinds initialSession (initialSession\<lparr>temp := Some [0, 0, 0, 16, 0]\<rparr>) = [] \<and>
   firmwareIdentifier (projr (readLoop initialSession [[255, 47, 3, 0, 0, 0, 16, 0]])) = Num 3 \<and>
   specTableRow FirmwareVersion [1, 47, 3, 0, 0, 0, 16, 0] \<and>
   readLoop initialSession [[1, 47, 3, 0, 0, 0, 16, 0]] = Inr initialSession"
  by (simp add: awaitChunk_def executor_def ackNotice_def accumulate_def decodeSample_def decodeReply_def
        firmwareBody_def Let_def termWrite_def initialSession_def looseEq_def at_def and255_def
        decodedKinds_def specTableRow_def)

text \<open>
  An exception leaves the function of a chunk only before that call has changed
  anything: the session in which \<open>awaitChunk\<close> continues is the one it started from.
\<close>

lemma executor_throws_early:
  assumes "executor s val = Inl e"
  shows "ackNotice val s = s \<and> temp s = None \<and> e = TypeError"
proof -
  from assms have acc: "accumulate val (ackNotice val s) = Inl e"
    by (auto simp: executor_def accumulate_def split: sum.splits option.splits if_splits)
  then have "\<not> looseEq (at val 0) 255" "temp (ackNotice val s) = None" "e = TypeError"
    by (auto simp: accumulate_def split: if_splits option.splits)
  then show ?thesis by (simp add: ackNotice_def)
qed

text \<open>
  What the reader loop does with a first chunk that is no marker. While \<^verbatim>\<open>temp\<close> is
  still \<^verbatim>\<open>undefined\<close>, a chunk whose first byte is neither 0x00 nor 0xFF makes the
  append step throw a \<^verbatim>\<open>TypeError\<close>, which ends the function handling that chunk. The
  promise of that function is already resolved, so the exception is discarded: the
  \<^verbatim>\<open>await\<close> completes normally and the session is unchanged.
\<close>

theorem first_chunk_append_fails:
  assumes "temp s = None" and "val \<noteq> []" and "hd val \<noteq> 0" and "hd val \<noteq> 255"
  shows "accumulate val (ackNotice val s) = Inl TypeError \<and> executor s val = Inl TypeError \<and>
         awaitChunk s val = Inr s"
proof -
  from assms(2) have h: "at val 0 = Num (uint (hd val))"
    by (cases val) (simp_all add: at_def)
  have ne: "\<not> looseEq (at val 0) 255" "\<not> looseEq (at val 0) 0"
    using assms(3,4) by (simp_all add: h looseEq_def word_uint_eq_iff)
  then have a: "ackNotice val s = s" by (simp add: ackNotice_def)
  have b: "accumulate val s = Inl TypeError"
    using ne assms(1) by (simp add: accumulate_def)
  show ?thesis by (simp add: a b executor_def awaitChunk_def)
qed

text \<open>The theorem at the initial session and the chunk 2F 03.\<close>

theorem first_chunk_append_fails_witness:
  "temp initialSession = None \<and> [0x2F, 3 :: byte] \<noteq> [] \<and> hd [0x2F, 3 :: byte] \<noteq> 0 \<and> hd [0x2F, 3 :: byte] \<noteq> 255 \<and>
   executor initialSession [0x2F, 3] = Inl TypeError \<and> awaitChunk initialSession [0x2F, 3] = Inr initialSession"
  using first_chunk_append_fails [of initialSession "[0x2F, 3]"]
  by (simp add: initialSession_def)

text \<open>
  Claim C10: a first chunk that starts with neither 0x00 nor 0xFF makes the append step
  fail, and its processing ends with an error instead of the chunk being dropped
  silently. The code loses the error: for the chunk 2F as the first chunk of a
  connection the function of the chunk throws the \<^verbatim>\<open>TypeError\<close>, but the reader loop
  goes on in the initial session, its \<^verbatim>\<open>catch\<close> block, which reports the errors of
  this loop on the terminal, is not entered, and nothing is printed.
\<close>

theorem first_chunk_error_lost:
  "executor initialSession [47] = Inl TypeError \<and>
   readLoop initialSession [[47]] = Inr initialSession \<and>
   terminal initialSession = []"
  by (simp add: executor_def accumulate_def ackNotice_def awaitChunk_def initialSession_def looseEq_def at_def)

end
